theory Spec2Isabelle
  imports Complex_Main
begin

section \<open>Shelf tools: finalization checklist and viewport screenshot\<close>

text \<open>
  The two scripts are event handlers inside a host application. Everything the host
  provides (the scene graph, the user's answers to prompts, the clock, the viewport) is a
  field of the record \<open>hou\<close>; everything the scripts do to the host (storing user data,
  saving the scene file, requesting a flipbook, showing a message) is an update of that
  record, most of it an \<open>event\<close> appended to its \<open>log\<close>. A function of the scripts takes
  the record and returns it updated. The functions keep the names of the source without
  the leading underscore.

  A Python \<open>str\<close> is a \<open>string\<close>. The scripts index and slice strings by character, and
  the theorems evaluate these operations on ASCII text, where one \<open>char\<close> is one character.
  The few characters outside ASCII that occur in literals of the scripts are written as the
  bytes of their UTF-8 encoding. A Python \<open>int\<close> is an \<open>int\<close>. A Python \<open>float\<close> is a
  \<open>pyfloat\<close>: a rational number (every finite double is one) or one of the three special
  values. How a float is printed and how a decimal literal is rounded to a float is not
  modelled: both are parameters, \<open>float_repr\<close> and \<open>parse_float\<close>, of the functions that
  need them. \<open>os.path\<close> is \<open>posixpath\<close>.
\<close>

subsection \<open>The checklist labels\<close>

text \<open>
  \<open>CHECK_ITEMS\<close>, with the literals as the source has them. Python joins adjacent string
  literals that no comma separates, which the model writes as \<open>@\<close>.
\<close>

definition em_dash :: string where
  "em_dash = [CHR 0xE2, CHR 0x80, CHR 0x94]"

definition right_quote :: string where
  "right_quote = [CHR 0xE2, CHR 0x80, CHR 0x99]"

definition CHECK_ITEMS :: "string list" where
  "CHECK_ITEMS =
    [ ''No error flags (red) or critical warnings anywhere in the network.'',
      ''All external file paths are relative ($HIP, $JOB) '' @ em_dash
        @ '' no absolute C:/ or /Users/ paths.'',
      ''Parameters behave as intended; key sliders/ramps don'' @ right_quote
        @ ''t break the graph.'',
      ''Procedural chains still work after changing inputs (robustness sanity check).'',
      ''Remove or bypass unused test geometry/nodes (scene hygiene).'',
      ''Node names are clear and grouped; network annotated with sticky notes/colors.'',
      ''Remove or bypass temporary debugging/visualization nodes.'',
      ''Basic lighting rig in place (no default headlight in final shots).'',
      ''Shot camera(s) framed, locked, and protected (avoid accidental nudges).'',
      ''Shaders finalized or clean procedural placeholders '' @ em_dash
        @ '' no default gray giveaways.'',
      ''No UV or texture stretching; verify texture paths are valid and UDIMs resolve correctly.''
        @ ''Heavy sims/meshes cached to disk; downstream reads from caches.'',
      ''Clear history & caches where safe (reduce file size, speed up load times).'',
      ''Display flags / viewport LODs optimized for smooth playback.'',
      ''All dependencies gathered into project folder (textures, caches, alembic, etc.).'',
      ''Final .hip saved with `_final` suffix (versioned and traceable).'',
      ''Required exports (EXR/MP4/ABC/FBX/etc.) completed per delivery specs.'',
      ''Scene opens cleanly on another machine (no missing plugins/paths).'',
      ''Final renders/playblast checked for artifacts, missing frames, or flicker.'' ]"

text \<open>The number of rows of the dialog's list widget: one per label.\<close>

definition list_count :: nat where
  "list_count = length CHECK_ITEMS"

subsection \<open>Python values\<close>

text \<open>
  The values \<open>json.loads\<close> returns. A dictionary is the list of its items in insertion
  order, with no key twice.
\<close>

datatype pyfloat = Finite rat | NaN | PosInf | NegInf

datatype json =
    JNull
  | JBool bool
  | JInt int
  | JFloat pyfloat
  | JStr string
  | JList "json list"
  | JDict "(string \<times> json) list"

datatype py_error =
    JSONDecodeError
  | AttributeError
  | TypeError
  | ValueError
  | IndexError
  | hou_Error string
  | hou_OperationFailed

subsection \<open>Decimal integers\<close>

text \<open>
  \<open>str_int\<close> is \<open>str\<close> on an integer; \<open>nat_of_digits\<close> is the value of a run of decimal
  digits.
\<close>

definition is_digit :: "char \<Rightarrow> bool" where
  "is_digit c = (48 \<le> (of_char c :: nat) \<and> (of_char c :: nat) \<le> 57)"

definition digit_val :: "char \<Rightarrow> nat" where
  "digit_val c = of_char c - 48"

definition digit_char :: "nat \<Rightarrow> char" where
  "digit_char d = char_of (48 + d)"

fun str_nat :: "nat \<Rightarrow> string" where
  "str_nat n = (if n < 10 then [digit_char n] else str_nat (n div 10) @ [digit_char (n mod 10)])"

declare str_nat.simps [simp del]

definition str_int :: "int \<Rightarrow> string" where
  "str_int i = (if i < 0 then CHR ''-'' # str_nat (nat (- i)) else str_nat (nat i))"

definition nat_of_digits :: "string \<Rightarrow> nat" where
  "nat_of_digits ds = foldl (\<lambda>a c. 10 * a + digit_val c) 0 ds"

subsection \<open>The JSON decoder\<close>

text \<open>
  \<open>json.loads\<close> as the standard library implements it: \<open>match_number\<close> is the regular
  expression \<^verbatim>\<open>(-?(?:0|[1-9][0-9]*))(\.[0-9]+)?([eE][-+]?[0-9]+)?\<close> with its three groups,
  \<open>scanstring\<close> reads a string literal after its opening quote (strict mode),
  \<open>scan_once\<close> reads one value, \<open>JSONArray\<close> and \<open>JSONObject\<close> the items of a container
  after its opening bracket. Each returns the value and the rest of the text, or \<open>None\<close>
  where the library raises \<open>JSONDecodeError\<close>.

  The three mutually recursive functions take a bound on the number of nested calls, and
  \<open>json_loads\<close> starts them with twice the length of the text: every call consumes at least
  one character before the next one.
\<close>

definition is_ws :: "char \<Rightarrow> bool" where
  "is_ws c = (c = CHR '' '' \<or> c = CHR 0x09 \<or> c = CHR 0x0A \<or> c = CHR 0x0D)"

definition skip_ws :: "string \<Rightarrow> string" where
  "skip_ws = dropWhile is_ws"

definition scan_digits :: "string \<Rightarrow> string \<times> string" where
  "scan_digits s = (takeWhile is_digit s, dropWhile is_digit s)"

definition scan_frac :: "string \<Rightarrow> string \<times> string" where
  "scan_frac s =
     (case s of
        c # r \<Rightarrow>
          (if c = CHR ''.'' \<and> fst (scan_digits r) \<noteq> []
           then (c # fst (scan_digits r), snd (scan_digits r)) else ([], s))
      | [] \<Rightarrow> ([], s))"

definition scan_sign :: "string \<Rightarrow> string \<times> string" where
  "scan_sign s =
     (case s of
        c # r \<Rightarrow> (if c = CHR ''-'' \<or> c = CHR ''+'' then ([c], r) else ([], s))
      | [] \<Rightarrow> ([], s))"

definition scan_exp :: "string \<Rightarrow> string \<times> string" where
  "scan_exp s =
     (case s of
        c # r \<Rightarrow>
          (if (c = CHR ''e'' \<or> c = CHR ''E'') \<and> fst (scan_digits (snd (scan_sign r))) \<noteq> []
           then (c # fst (scan_sign r) @ fst (scan_digits (snd (scan_sign r))),
                 snd (scan_digits (snd (scan_sign r))))
           else ([], s))
      | [] \<Rightarrow> ([], s))"

definition scan_unsigned :: "string \<Rightarrow> (string \<times> string) option" where
  "scan_unsigned s =
     (case s of
        [] \<Rightarrow> None
      | d # r \<Rightarrow>
          if d = CHR ''0'' then Some ([d], r)
          else if is_digit d then Some (d # fst (scan_digits r), snd (scan_digits r))
          else None)"

definition scan_integer :: "string \<Rightarrow> (string \<times> string) option" where
  "scan_integer s =
     (case s of
        [] \<Rightarrow> None
      | c # r \<Rightarrow>
          if c = CHR ''-'' then map_option (\<lambda>(i, t). (c # i, t)) (scan_unsigned r)
          else scan_unsigned s)"

definition match_number :: "string \<Rightarrow> (string \<times> string \<times> string \<times> string) option" where
  "match_number s =
     (case scan_integer s of
        None \<Rightarrow> None
      | Some (integer, s1) \<Rightarrow>
          Some (integer, fst (scan_frac s1), fst (scan_exp (snd (scan_frac s1))),
                snd (scan_exp (snd (scan_frac s1)))))"

definition py_int_literal :: "string \<Rightarrow> int" where
  "py_int_literal l =
     (if take 1 l = ''-'' then - int (nat_of_digits (drop 1 l)) else int (nat_of_digits l))"


fun dict_set :: "string \<Rightarrow> json \<Rightarrow> (string \<times> json) list \<Rightarrow> (string \<times> json) list" where
  "dict_set k v [] = [(k, v)]"
| "dict_set k v ((k', v') # d) = (if k' = k then (k, v) # d else (k', v') # dict_set k v d)"

definition hexval :: "char \<Rightarrow> nat option" where
  "hexval c =
     (let n = (of_char c :: nat)
      in if 48 \<le> n \<and> n \<le> 57 then Some (n - 48)
         else if 65 \<le> n \<and> n \<le> 70 then Some (n - 55)
         else if 97 \<le> n \<and> n \<le> 102 then Some (n - 87)
         else None)"

definition decode_uXXXX :: "string \<Rightarrow> nat option" where
  "decode_uXXXX s =
     (case map hexval (take 4 s) of
        [Some a, Some b, Some c, Some d] \<Rightarrow> Some (((a * 16 + b) * 16 + c) * 16 + d)
      | _ \<Rightarrow> None)"

definition chr_utf8 :: "nat \<Rightarrow> string" where
  "chr_utf8 u =
     (if u < 0x80 then [char_of u]
      else if u < 0x800 then [char_of (0xC0 + u div 64), char_of (0x80 + u mod 64)]
      else if u < 0x10000 then
        [char_of (0xE0 + u div 4096), char_of (0x80 + u div 64 mod 64), char_of (0x80 + u mod 64)]
      else
        [char_of (0xF0 + u div 262144), char_of (0x80 + u div 4096 mod 64),
         char_of (0x80 + u div 64 mod 64), char_of (0x80 + u mod 64)])"

definition BACKSLASH :: "char \<Rightarrow> char option" where
  "BACKSLASH e =
     (if e = CHR 0x22 then Some (CHR 0x22)
      else if e = CHR 0x5C then Some (CHR 0x5C)
      else if e = CHR ''/'' then Some (CHR ''/'')
      else if e = CHR ''b'' then Some (CHR 0x08)
      else if e = CHR ''f'' then Some (CHR 0x0C)
      else if e = CHR ''n'' then Some (CHR 0x0A)
      else if e = CHR ''r'' then Some (CHR 0x0D)
      else if e = CHR ''t'' then Some (CHR 0x09)
      else None)"

definition prepend :: "string \<Rightarrow> (string \<times> string) option \<Rightarrow> (string \<times> string) option" where
  "prepend cs r = map_option (\<lambda>(t, rest). (cs @ t, rest)) r"

function scanstring :: "string \<Rightarrow> (string \<times> string) option" where
  "scanstring [] = None"
| "scanstring (c # s) =
     (if c = CHR 0x22 then Some ([], s)
      else if c = CHR 0x5C then
        (case s of
           [] \<Rightarrow> None
         | esc # r \<Rightarrow>
             if esc \<noteq> CHR ''u'' then
               (case BACKSLASH esc of
                  None \<Rightarrow> None
                | Some ch \<Rightarrow> prepend [ch] (scanstring r))
             else
               (case decode_uXXXX r of
                  None \<Rightarrow> None
                | Some uni \<Rightarrow>
                    if 0xD800 \<le> uni \<and> uni \<le> 0xDBFF \<and> take 2 (drop 4 r) = [CHR 0x5C, CHR ''u''] then
                      (case decode_uXXXX (drop 6 r) of
                         None \<Rightarrow> None
                       | Some uni2 \<Rightarrow>
                           if 0xDC00 \<le> uni2 \<and> uni2 \<le> 0xDFFF then
                             prepend (chr_utf8 (0x10000 + (uni - 0xD800) * 1024 + (uni2 - 0xDC00)))
                               (scanstring (drop 10 r))
                           else prepend (chr_utf8 uni) (scanstring (drop 4 r)))
                    else prepend (chr_utf8 uni) (scanstring (drop 4 r))))
      else if (of_char c :: nat) < 0x20 then None
      else prepend [c] (scanstring s))"
  by pat_completeness auto
termination
  by (relation "measure length") auto

fun scan_once :: "(string \<Rightarrow> pyfloat) \<Rightarrow> nat \<Rightarrow> string \<Rightarrow> (json \<times> string) option"
  and JSONArray :: "(string \<Rightarrow> pyfloat) \<Rightarrow> nat \<Rightarrow> string \<Rightarrow> json list \<Rightarrow> (json \<times> string) option"
  and JSONObject :: "(string \<Rightarrow> pyfloat) \<Rightarrow> nat \<Rightarrow> string \<Rightarrow> (string \<times> json) list \<Rightarrow> (json \<times> string) option"
where
  "scan_once pf 0 s = None"
| "scan_once pf (Suc n) s =
     (case s of
        [] \<Rightarrow> None
      | c # cs \<Rightarrow>
          if c = CHR 0x22 then map_option (\<lambda>(t, r). (JStr t, r)) (scanstring cs)
          else if c = CHR ''{'' then
            (if take 1 (skip_ws cs) = ''}'' then Some (JDict [], drop 1 (skip_ws cs))
             else JSONObject pf n (skip_ws cs) [])
          else if c = CHR ''['' then
            (if take 1 (skip_ws cs) = '']'' then Some (JList [], drop 1 (skip_ws cs))
             else JSONArray pf n (skip_ws cs) [])
          else if take 4 s = ''null'' then Some (JNull, drop 4 s)
          else if take 4 s = ''true'' then Some (JBool True, drop 4 s)
          else if take 5 s = ''false'' then Some (JBool False, drop 5 s)
          else
            (case match_number s of
               Some (integer, fpart, epart, r) \<Rightarrow>
                 if fpart \<noteq> [] \<or> epart \<noteq> [] then Some (JFloat (pf (integer @ fpart @ epart)), r)
                 else Some (JInt (py_int_literal integer), r)
             | None \<Rightarrow>
                 if take 3 s = ''NaN'' then Some (JFloat NaN, drop 3 s)
                 else if take 8 s = ''Infinity'' then Some (JFloat PosInf, drop 8 s)
                 else if take 9 s = ''-Infinity'' then Some (JFloat NegInf, drop 9 s)
                 else None))"
| "JSONArray pf 0 s acc = None"
| "JSONArray pf (Suc n) s acc =
     (case scan_once pf n s of
        None \<Rightarrow> None
      | Some (v, r) \<Rightarrow>
          (case skip_ws r of
             [] \<Rightarrow> None
           | c # r1 \<Rightarrow>
               if c = CHR '']'' then Some (JList (acc @ [v]), r1)
               else if c = CHR '','' then JSONArray pf n (skip_ws r1) (acc @ [v])
               else None))"
| "JSONObject pf 0 s acc = None"
| "JSONObject pf (Suc n) s acc =
     (case s of
        [] \<Rightarrow> None
      | q # s1 \<Rightarrow>
          if q \<noteq> CHR 0x22 then None
          else
            (case scanstring s1 of
               None \<Rightarrow> None
             | Some (key, s2) \<Rightarrow>
                 (case skip_ws s2 of
                    [] \<Rightarrow> None
                  | c # s3 \<Rightarrow>
                      if c \<noteq> CHR '':'' then None
                      else
                        (case scan_once pf n (skip_ws s3) of
                           None \<Rightarrow> None
                         | Some (v, r) \<Rightarrow>
                             (case skip_ws r of
                                [] \<Rightarrow> None
                              | d # r1 \<Rightarrow>
                                  if d = CHR ''}'' then Some (JDict (dict_set key v acc), r1)
                                  else if d = CHR '','' then
                                    JSONObject pf n (skip_ws r1) (dict_set key v acc)
                                  else None)))))"

definition json_loads :: "(string \<Rightarrow> pyfloat) \<Rightarrow> string \<Rightarrow> py_error + json" where
  "json_loads pf s =
     (case scan_once pf (2 * length s) (skip_ws s) of
        None \<Rightarrow> Inl JSONDecodeError
      | Some (v, r) \<Rightarrow> if skip_ws r = [] then Inr v else Inl JSONDecodeError)"

subsection \<open>The JSON encoder\<close>

text \<open>
  \<open>json.dumps\<close> with its defaults: \<open>ensure_ascii\<close>, the separators \<open>'', ''\<close> and
  \<open>'': ''\<close>. The escapes of \<open>encode_basestring_ascii\<close> are those of ASCII text.
\<close>

definition hex_digit :: "nat \<Rightarrow> char" where
  "hex_digit d = (if d < 10 then char_of (48 + d) else char_of (87 + d))"

definition u_escape :: "nat \<Rightarrow> string" where
  "u_escape u =
     [CHR 0x5C, CHR ''u'', hex_digit (u div 4096 mod 16), hex_digit (u div 256 mod 16),
      hex_digit (u div 16 mod 16), hex_digit (u mod 16)]"

definition encode_char :: "char \<Rightarrow> string" where
  "encode_char c =
     (if c = CHR 0x22 then [CHR 0x5C, CHR 0x22]
      else if c = CHR 0x5C then [CHR 0x5C, CHR 0x5C]
      else if c = CHR 0x0A then [CHR 0x5C, CHR ''n'']
      else if c = CHR 0x0D then [CHR 0x5C, CHR ''r'']
      else if c = CHR 0x09 then [CHR 0x5C, CHR ''t'']
      else if c = CHR 0x0C then [CHR 0x5C, CHR ''f'']
      else if c = CHR 0x08 then [CHR 0x5C, CHR ''b'']
      else if 0x20 \<le> (of_char c :: nat) \<and> (of_char c :: nat) \<le> 0x7E then [c]
      else u_escape (of_char c))"

definition encode_basestring_ascii :: "string \<Rightarrow> string" where
  "encode_basestring_ascii s = CHR 0x22 # concat (map encode_char s) @ [CHR 0x22]"

definition floatstr :: "(rat \<Rightarrow> string) \<Rightarrow> pyfloat \<Rightarrow> string" where
  "floatstr float_repr f =
     (case f of
        NaN \<Rightarrow> ''NaN''
      | PosInf \<Rightarrow> ''Infinity''
      | NegInf \<Rightarrow> ''-Infinity''
      | Finite q \<Rightarrow> float_repr q)"

fun join :: "string \<Rightarrow> string list \<Rightarrow> string" where
  "join sep [] = []"
| "join sep [x] = x"
| "join sep (x # y # ys) = x @ sep @ join sep (y # ys)"

fun json_dumps :: "(rat \<Rightarrow> string) \<Rightarrow> json \<Rightarrow> string"
  and dumps_list :: "(rat \<Rightarrow> string) \<Rightarrow> json list \<Rightarrow> string list"
  and dumps_items :: "(rat \<Rightarrow> string) \<Rightarrow> (string \<times> json) list \<Rightarrow> string list"
where
  "json_dumps fr JNull = ''null''"
| "json_dumps fr (JBool b) = (if b then ''true'' else ''false'')"
| "json_dumps fr (JInt i) = str_int i"
| "json_dumps fr (JFloat f) = floatstr fr f"
| "json_dumps fr (JStr s) = encode_basestring_ascii s"
| "json_dumps fr (JList xs) = ''['' @ join '', '' (dumps_list fr xs) @ '']''"
| "json_dumps fr (JDict kvs) = ''{'' @ join '', '' (dumps_items fr kvs) @ ''}''"
| "dumps_list fr [] = []"
| "dumps_list fr (x # xs) = json_dumps fr x # dumps_list fr xs"
| "dumps_items fr [] = []"
| "dumps_items fr (kv # kvs) =
     (encode_basestring_ascii (fst kv) @ '': '' @ json_dumps fr (snd kv)) # dumps_items fr kvs"

subsection \<open>The host application\<close>

text \<open>
  What the scripts read from \<open>hou\<close>, \<open>os\<close> and \<open>time\<close>, and what they write.
  \<^item> \<open>node\<close> is \<open>hou.node\<close>: the network at a path, if there is one, with its user data
    and the nodes below it; a parameter is a string parameter or not, and evaluating it
    as a string gives a value or raises (\<open>None\<close>).
  \<^item> \<open>HIP\<close> is the expansion of \<open>$HIP\<close> (\<open>None\<close> if \<open>hou.expandString\<close> raises),
    \<open>hipFile_path\<close> is \<open>hou.hipFile.path()\<close> (empty for none), \<open>frame\<close> is
    \<open>hou.frame()\<close>, \<open>strftime\<close> the clock formatted with \<^verbatim>\<open>%Y%m%d_%H%M%S\<close>,
    \<open>time_time\<close> is \<open>time.time()\<close>.
  \<^item> \<open>scene_viewer\<close> is the Scene Viewer pane, if there is one, with the name of the
    camera of its current viewport (if it looks through one), the name of the viewport
    and whether its \<open>flipbook\<close> raises.
  \<^item> \<open>answers\<close> are the buttons the user will press in the coming message boxes,
    \<open>selectFromList\<close> and \<open>readMultiInput\<close> what the two input dialogs return.
  \<^item> \<open>log\<close> records the effects in order. Saving the scene and creating a directory
    are taken to succeed.
\<close>

definition STATE_KEY :: string where
  "STATE_KEY = ''finalization_checklist_state_v1''"

record hou_parm =
  parm_name :: string
  is_string_parm :: bool
  evalAsString :: "string option"

record hou_node =
  node_path :: string
  parms :: "hou_parm list"

record network =
  userData :: "string \<rightharpoonup> string"
  allSubChildren :: "hou_node list"

record viewer =
  camera_name :: "string option"
  viewport_name :: string
  flipbook_raises :: bool

datatype event =
    SetUserData string string
  | DisplayMessage string
  | SaveHip string
  | MakeDirs string
  | Flipbook string "int \<times> int" "pyfloat \<times> pyfloat"
  | Notify string
  | Accept

record hou =
  node :: "string \<rightharpoonup> network"
  HIP :: "string option"
  hipFile_path :: string
  getcwd :: string
  frame :: pyfloat
  strftime :: string
  time_time :: rat
  scene_viewer :: "viewer option"
  isdir :: "string \<Rightarrow> bool"
  path_exists :: "string \<Rightarrow> bool"
  answers :: "nat list"
  selectFromList :: "nat list"
  readMultiInput :: "int \<times> string \<times> string"
  log :: "event list"

subsection \<open>Persistence helpers\<close>

text \<open>
  \<open>load_state\<close> returns whatever \<open>json.loads\<close> returns, and the empty dictionary when
  there is no node, no stored text, or \<open>json.loads\<close> raises. \<open>save_state\<close> does nothing
  without the node.
\<close>

definition state_node :: "hou \<Rightarrow> network option" where
  "state_node h = node h ''/obj''"

definition load_state :: "(string \<Rightarrow> pyfloat) \<Rightarrow> hou \<Rightarrow> json" where
  "load_state pf h =
     (case state_node h of
        None \<Rightarrow> JDict []
      | Some n \<Rightarrow>
          (case userData n STATE_KEY of
             None \<Rightarrow> JDict []
           | Some raw \<Rightarrow>
               if raw = [] then JDict []
               else (case json_loads pf raw of Inl e \<Rightarrow> JDict [] | Inr v \<Rightarrow> v)))"

definition save_state :: "(rat \<Rightarrow> string) \<Rightarrow> hou \<Rightarrow> int list \<Rightarrow> hou" where
  "save_state fr h checked_indices =
     (case state_node h of
        None \<Rightarrow> h
      | Some n \<Rightarrow>
          (let text = json_dumps fr
                 (JDict [(''checked'', JList (map JInt checked_indices)),
                         (''time'', JFloat (Finite (time_time h)))])
           in h\<lparr>node := (node h)(''/obj'' \<mapsto> n\<lparr>userData := (userData n)(STATE_KEY \<mapsto> text)\<rparr>),
                log := log h @ [SetUserData STATE_KEY text]\<rparr>))"

text \<open>
  What the dialog does with the loaded state when it opens:
  \<open>checked_set = set(saved.get("checked", []))\<close> and then \<open>i in checked_set\<close>.
  \<open>saved.get\<close> exists on a dictionary only; \<open>set\<close> needs an iterable of hashable
  values; an integer is equal to an integer, to a boolean and to a float of the same value.
\<close>

definition saved_get_checked :: "json \<Rightarrow> py_error + json" where
  "saved_get_checked saved =
     (case saved of
        JDict d \<Rightarrow> (case map_of d ''checked'' of None \<Rightarrow> Inr (JList []) | Some v \<Rightarrow> Inr v)
      | _ \<Rightarrow> Inl AttributeError)"

definition hashable :: "json \<Rightarrow> bool" where
  "hashable v = (case v of JList xs \<Rightarrow> False | JDict d \<Rightarrow> False | _ \<Rightarrow> True)"

definition py_set :: "json \<Rightarrow> py_error + json list" where
  "py_set v =
     (case v of
        JList xs \<Rightarrow> if list_all hashable xs then Inr xs else Inl TypeError
      | JDict d \<Rightarrow> Inr (map (\<lambda>kv. JStr (fst kv)) d)
      | JStr s \<Rightarrow> Inr (map (\<lambda>c. JStr [c]) s)
      | _ \<Rightarrow> Inl TypeError)"

definition eq_int :: "int \<Rightarrow> json \<Rightarrow> bool" where
  "eq_int i v =
     (case v of
        JInt j \<Rightarrow> j = i
      | JBool b \<Rightarrow> (if b then 1 else 0) = i
      | JFloat f \<Rightarrow> (case f of Finite q \<Rightarrow> q = of_int i | _ \<Rightarrow> False)
      | _ \<Rightarrow> False)"

definition py_in :: "int \<Rightarrow> json list \<Rightarrow> bool" where
  "py_in i s = list_ex (eq_int i) s"

subsection \<open>Strings and paths\<close>

text \<open>
  The methods of \<open>str\<close> and the functions of \<open>os.path\<close> that the scripts call.
  \<open>splitext\<close> splits at the last dot of the last path component, unless only dots
  precede it there.
\<close>

definition startswith :: "string \<Rightarrow> string \<Rightarrow> bool" where
  "startswith s pre = (take (length pre) s = pre)"

definition endswith :: "string \<Rightarrow> string \<Rightarrow> bool" where
  "endswith s suf = (length suf \<le> length s \<and> drop (length s - length suf) s = suf)"

fun contains :: "string \<Rightarrow> string \<Rightarrow> bool" where
  "contains sub [] = (sub = [])"
| "contains sub (c # s) = (startswith (c # s) sub \<or> contains sub s)"

definition lower_char :: "char \<Rightarrow> char" where
  "lower_char c =
     (if 65 \<le> (of_char c :: nat) \<and> (of_char c :: nat) \<le> 90 then char_of ((of_char c :: nat) + 32)
      else c)"

definition lower :: "string \<Rightarrow> string" where
  "lower s = map lower_char s"



fun split :: "char \<Rightarrow> string \<Rightarrow> string list" where
  "split sep [] = [[]]"
| "split sep (c # s) =
     (if c = sep then [] # split sep s
      else (case split sep s of p # ps \<Rightarrow> (c # p) # ps | [] \<Rightarrow> [[c]]))"

definition basename :: "string \<Rightarrow> string" where
  "basename p = rev (takeWhile (\<lambda>c. c \<noteq> CHR ''/'') (rev p))"

definition dirname :: "string \<Rightarrow> string" where
  "dirname p =
     (let head = rev (dropWhile (\<lambda>c. c \<noteq> CHR ''/'') (rev p))
      in if head \<noteq> [] \<and> \<not> list_all (\<lambda>c. c = CHR ''/'') head
         then rev (dropWhile (\<lambda>c. c = CHR ''/'') (rev head)) else head)"

definition path_join :: "string \<Rightarrow> string \<Rightarrow> string" where
  "path_join a b =
     (if startswith b ''/'' then b
      else if a = [] \<or> endswith a ''/'' then a @ b
      else a @ ''/'' @ b)"

definition splitext :: "string \<Rightarrow> string \<times> string" where
  "splitext p =
     (let name = basename p;
          head = take (length p - length name) p;
          after = rev (takeWhile (\<lambda>c. c \<noteq> CHR ''.'') (rev name));
          stem = rev (drop 1 (dropWhile (\<lambda>c. c \<noteq> CHR ''.'') (rev name)))
      in if CHR ''.'' \<in> set name \<and> \<not> list_all (\<lambda>c. c = CHR ''.'') stem
         then (head @ stem, CHR ''.'' # after) else (p, []))"

subsection \<open>Reading and formatting integers\<close>




definition py_round :: "rat \<Rightarrow> int" where
  "py_round q =
     (let f = floor q; d = q - of_int f
      in if d < 1 / 2 then f
         else if 1 / 2 < d then f + 1
         else if even f then f else f + 1)"

definition zfill :: "nat \<Rightarrow> string \<Rightarrow> string" where
  "zfill w s = replicate (w - length s) (CHR ''0'') @ s"

definition format_04d :: "int \<Rightarrow> string" where
  "format_04d n = (if n < 0 then CHR ''-'' # zfill 3 (str_nat (nat (- n))) else zfill 4 (str_nat (nat n)))"

subsection \<open>The dialog\<close>

text \<open>
  The state of the dialog is the list of its check boxes. \<open>dialog_init\<close> is the part of
  \<open>__init__\<close> that restores it. The list widget calls \<open>persist_now\<close> whenever the
  state of an item changes (\<open>itemChanged\<close>), so \<open>setCheckState\<close> persists when it changes
  something.
\<close>

definition displayMessage :: "hou \<Rightarrow> string \<Rightarrow> nat \<times> hou" where
  "displayMessage h msg =
     ((case answers h of [] \<Rightarrow> 0 | a # as \<Rightarrow> a),
      h\<lparr>answers := tl (answers h), log := log h @ [DisplayMessage msg]\<rparr>)"

definition notify :: "hou \<Rightarrow> string \<Rightarrow> hou" where
  "notify h msg = h\<lparr>log := log h @ [Notify msg]\<rparr>"

definition dialog_init :: "(string \<Rightarrow> pyfloat) \<Rightarrow> hou \<Rightarrow> py_error + bool list" where
  "dialog_init pf h =
     (case saved_get_checked (load_state pf h) of
        Inl e \<Rightarrow> Inl e
      | Inr checked \<Rightarrow>
          (case py_set checked of
             Inl e \<Rightarrow> Inl e
           | Inr checked_set \<Rightarrow>
               Inr (map (\<lambda>i. py_in (int i) checked_set) [0..<list_count])))"

definition collect_checked_indices :: "bool list \<Rightarrow> int list" where
  "collect_checked_indices items = map int (filter (\<lambda>i. items ! i) [0..<length items])"

definition persist_now :: "(rat \<Rightarrow> string) \<Rightarrow> hou \<Rightarrow> bool list \<Rightarrow> hou" where
  "persist_now fr h items = save_state fr h (collect_checked_indices items)"

definition setCheckState :: "(rat \<Rightarrow> string) \<Rightarrow> nat \<Rightarrow> bool \<Rightarrow> hou \<times> bool list \<Rightarrow> hou \<times> bool list" where
  "setCheckState fr i b st =
     (case st of (h, items) \<Rightarrow>
        if i < length items \<and> items ! i \<noteq> b
        then (persist_now fr h (items[i := b]), items[i := b])
        else (h, items))"

definition check_all :: "(rat \<Rightarrow> string) \<Rightarrow> hou \<Rightarrow> bool list \<Rightarrow> hou \<times> bool list" where
  "check_all fr h items =
     (case fold (\<lambda>i. setCheckState fr i True) [0..<length items] (h, items) of
        (h1, items1) \<Rightarrow> (notify (persist_now fr h1 items1) ''All items checked.'', items1))"

definition clear_all :: "(rat \<Rightarrow> string) \<Rightarrow> hou \<Rightarrow> bool list \<Rightarrow> hou \<times> bool list" where
  "clear_all fr h items =
     (case fold (\<lambda>i. setCheckState fr i False) [0..<length items] (h, items) of
        (h1, items1) \<Rightarrow> (notify (persist_now fr h1 items1) ''All items cleared.'', items1))"

definition all_checked :: "bool list \<Rightarrow> bool" where
  "all_checked items = list_all (\<lambda>i. items ! i) [0..<length items]"

subsection \<open>Screenshot helpers of the checklist\<close>

definition hip_dir :: "hou \<Rightarrow> string" where
  "hip_dir h =
     (case HIP h of
        Some d \<Rightarrow> d
      | None \<Rightarrow> dirname (if hipFile_path h \<noteq> [] then hipFile_path h else getcwd h))"

definition screens_dir :: "hou \<Rightarrow> string \<times> hou" where
  "screens_dir h =
     (let d = path_join (hip_dir h) ''screenshots''
      in if isdir h d then (d, h) else (d, h\<lparr>log := log h @ [MakeDirs d]\<rparr>))"

definition active_view_label :: "hou \<Rightarrow> string" where
  "active_view_label h =
     (case scene_viewer h of
        None \<Rightarrow> ''noview''
      | Some sv \<Rightarrow> (case camera_name sv of Some cam \<Rightarrow> cam | None \<Rightarrow> viewport_name sv))"

definition frame_str :: "hou \<Rightarrow> string" where
  "frame_str h =
     (case frame h of
        Finite q \<Rightarrow> CHR ''f'' # format_04d (py_round q)
      | _ \<Rightarrow> ''f0000'')"

definition screenshot_viewport :: "hou \<Rightarrow> string \<Rightarrow> string option \<times> hou" where
  "screenshot_viewport h custom_suffix =
     (case scene_viewer h of
        None \<Rightarrow> (None, h)
      | Some sv \<Rightarrow>
          (let base = fst (splitext (if hipFile_path h \<noteq> [] then hipFile_path h else ''untitled.hip''));
               label = active_view_label h;
               fname = basename base @ ''_'' @ label @ ''_'' @ frame_str h @ ''_'' @ strftime h;
               fname1 = (if custom_suffix \<noteq> [] then fname @ ''_'' @ custom_suffix else fname);
               h1 = snd (screens_dir h);
               img_path = path_join (fst (screens_dir h)) (fname1 @ ''.jpg'')
           in if flipbook_raises sv then (None, h1)
              else (Some img_path,
                    h1\<lparr>log := log h1 @ [Flipbook img_path (1920, 1080) (frame h, frame h)]\<rparr>)))"

definition screenshot_failed :: string where
  "screenshot_failed = ''Screenshot failed (no Scene Viewer or flipbook error).''"

definition on_screenshot :: "hou \<Rightarrow> hou" where
  "on_screenshot h =
     (case screenshot_viewport h ''checkpoint'' of
        (Some path, h1) \<Rightarrow> notify h1 (''Screenshot saved: '' @ path)
      | (None, h1) \<Rightarrow> notify h1 screenshot_failed)"

subsection \<open>Path check and save-as-final\<close>

text \<open>
  The three nested loops of \<open>has_absolute_paths\<close> with their early return: \<open>Inl\<close> is the
  list returned from inside the loops, \<open>Inr\<close> the list \<open>bad\<close> carried to the next
  iteration.
\<close>

definition is_abs :: "string \<Rightarrow> bool" where
  "is_abs val =
     (contains '':/'' val \<or> startswith val ''/''
      \<or> (2 < length val \<and> take 2 (drop 1 val) = [CHR '':'', CHR 0x5C]))"

definition flagged :: "string \<Rightarrow> bool" where
  "flagged val = (is_abs val \<and> \<not> contains ''$HIP'' val \<and> \<not> contains ''$JOB'' val)"

definition truncated :: string where
  "truncated = [CHR 0xE2, CHR 0x80, CHR 0xA6] @ '' (truncated)''"

definition bad_entry :: "hou_node \<Rightarrow> hou_parm \<Rightarrow> string \<Rightarrow> string" where
  "bad_entry nd parm val = node_path nd @ '' : '' @ parm_name parm @ '' = '' @ val"

fun scan_parms :: "hou_node \<Rightarrow> hou_parm list \<Rightarrow> string list \<Rightarrow> string list + string list" where
  "scan_parms nd [] bad = Inr bad"
| "scan_parms nd (parm # ps) bad =
     (if \<not> is_string_parm parm then scan_parms nd ps bad
      else (case evalAsString parm of
              None \<Rightarrow> scan_parms nd ps bad
            | Some val \<Rightarrow>
                if val = [] then scan_parms nd ps bad
                else if flagged val then
                  (if 50 < length (bad @ [bad_entry nd parm val])
                   then Inl (bad @ [bad_entry nd parm val] @ [truncated])
                   else scan_parms nd ps (bad @ [bad_entry nd parm val]))
                else scan_parms nd ps bad))"

fun scan_nodes :: "hou_node list \<Rightarrow> string list \<Rightarrow> string list + string list" where
  "scan_nodes [] bad = Inr bad"
| "scan_nodes (nd # nds) bad =
     (case scan_parms nd (parms nd) bad of
        Inl r \<Rightarrow> Inl r
      | Inr bad1 \<Rightarrow> scan_nodes nds bad1)"

fun scan_roots :: "hou \<Rightarrow> string list \<Rightarrow> string list \<Rightarrow> string list" where
  "scan_roots h [] bad = bad"
| "scan_roots h (r # rs) bad =
     (case node h r of
        None \<Rightarrow> scan_roots h rs bad
      | Some n \<Rightarrow>
          (case scan_nodes (allSubChildren n) bad of
             Inl res \<Rightarrow> res
           | Inr bad1 \<Rightarrow> scan_roots h rs bad1))"

definition has_absolute_paths :: "hou \<Rightarrow> string list" where
  "has_absolute_paths h = scan_roots h [''/obj'', ''/stage'', ''/mat'', ''/img''] []"

definition save_as_final :: "hou \<Rightarrow> string option \<times> hou" where
  "save_as_final h =
     (let cur = hipFile_path h
      in if cur = [] \<or> cur = ''untitled.hip''
         then (None, snd (displayMessage h ''Save your scene first.''))
         else if endswith (lower cur) ''_final.hip'' then (Some cur, h)
         else (let final_path = fst (splitext cur) @ ''_final'' @ snd (splitext cur)
               in (Some final_path,
                   h\<lparr>hipFile_path := final_path, log := log h @ [SaveHip final_path]\<rparr>)))"

subsection \<open>Finalize\<close>

text \<open>
  \<open>on_finalize\<close> in three steps: the prompt on unchecked items, the prompt on absolute
  paths (\<open>finalize_paths\<close>), then persist, save and screenshot (\<open>finalize_save\<close>).
\<close>

definition not_all_checked_msg :: string where
  "not_all_checked_msg = ''Not all items are checked. Still proceed?''"

definition abs_paths_msg :: "string list \<Rightarrow> string" where
  "abs_paths_msg bad_paths =
     ''Found '' @ str_nat (length bad_paths) @ '' absolute paths!'' @ [CHR 0x0A, CHR 0x0A]
       @ join [CHR 0x0A] (take 3 bad_paths) @ [CHR 0x0A, CHR 0x0A] @ ''Proceed anyway?''"

definition finalize_save :: "(rat \<Rightarrow> string) \<Rightarrow> hou \<Rightarrow> bool list \<Rightarrow> hou" where
  "finalize_save fr h items =
     (case save_as_final (persist_now fr h items) of
        (None, h1) \<Rightarrow> h1\<lparr>log := log h1 @ [Accept]\<rparr>
      | (Some final_path, h1) \<Rightarrow>
          (case screenshot_viewport h1 ''final'' of
             (shot, h2) \<Rightarrow>
               (let msg = ''Saved as: '' @ final_path
                      @ (case shot of Some s \<Rightarrow> ''  |  Final screenshot: '' @ s | None \<Rightarrow> [])
                in (notify h2 msg)\<lparr>log := log (notify h2 msg) @ [Accept]\<rparr>)))"

definition finalize_paths :: "(rat \<Rightarrow> string) \<Rightarrow> hou \<Rightarrow> bool list \<Rightarrow> hou" where
  "finalize_paths fr h items =
     (let bad_paths = has_absolute_paths h
      in if bad_paths \<noteq> [] then
           (case displayMessage h (abs_paths_msg bad_paths) of
              (ans, h1) \<Rightarrow> if ans = 0 then h1 else finalize_save fr h1 items)
         else finalize_save fr h items)"

definition on_finalize :: "(rat \<Rightarrow> string) \<Rightarrow> hou \<Rightarrow> bool list \<Rightarrow> hou" where
  "on_finalize fr h items =
     (if \<not> all_checked items then
        (case displayMessage h not_all_checked_msg of
           (ans, h1) \<Rightarrow> if ans = 0 then h1 else finalize_paths fr h1 items)
      else finalize_paths fr h items)"

subsection \<open>The viewport screenshot script\<close>








subsection \<open>Notions used in the statements and proofs\<close>

text \<open>
  A float literal of JSON: \<open>match_number\<close> matches the whole text, with a fraction or an
  exponent.
\<close>

definition float_literal :: "string \<Rightarrow> bool" where
  "float_literal l =
     (case match_number l of
        None \<Rightarrow> False
      | Some (ip, fp, ep, r) \<Rightarrow> r = [] \<and> (fp \<noteq> [] \<or> ep \<noteq> []))"

text \<open>A character at which \<open>match_number\<close> stops whatever it has read.\<close>

definition number_stop :: "char \<Rightarrow> bool" where
  "number_stop c = (\<not> is_digit c \<and> c \<noteq> CHR ''.'' \<and> c \<noteq> CHR ''e'' \<and> c \<noteq> CHR ''E''
     \<and> c \<noteq> CHR ''+'' \<and> c \<noteq> CHR ''-'')"

text \<open>The text \<open>save_state\<close> stores, given the printed index list and the printed time.\<close>

definition state_text :: "string \<Rightarrow> string \<Rightarrow> string" where
  "state_text body l =
     CHR ''{'' # CHR 0x22 # ''checked'' @ CHR 0x22 # '': ['' @ body @ ''], ''
       @ CHR 0x22 # ''time'' @ CHR 0x22 # '': '' @ l @ ''}''"

text \<open>
  The events a handler adds to the log, and two views of a list of events: the inline
  status messages in it and the files its flipbooks write.
\<close>

definition new_events :: "hou \<Rightarrow> hou \<Rightarrow> event list" where
  "new_events h h' = drop (length (log h)) (log h')"


fun notifications :: "event list \<Rightarrow> string list" where
  "notifications [] = []"
| "notifications (Notify msg # es) = msg # notifications es"
| "notifications (e # es) = notifications es"

fun flipbook_outputs :: "event list \<Rightarrow> string list" where
  "flipbook_outputs [] = []"
| "flipbook_outputs (Flipbook path res frames # es) = path # flipbook_outputs es"
| "flipbook_outputs (e # es) = flipbook_outputs es"

definition is_MakeDirs :: "event \<Rightarrow> bool" where
  "is_MakeDirs e = (case e of MakeDirs d \<Rightarrow> True | _ \<Rightarrow> False)"


definition silent :: "event \<Rightarrow> bool" where
  "silent e = (case e of SetUserData k t \<Rightarrow> True | SaveHip p \<Rightarrow> True | MakeDirs d \<Rightarrow> True | _ \<Rightarrow> False)"







fun flipbook_resolutions :: "event list \<Rightarrow> (int \<times> int) list" where
  "flipbook_resolutions [] = []"
| "flipbook_resolutions (Flipbook path res frames # es) = res # flipbook_resolutions es"
| "flipbook_resolutions (e # es) = flipbook_resolutions es"


subsection \<open>Example inputs\<close>

text \<open>
  A session with a saved scene, an empty \<open>/obj\<close> network and a Scene Viewer looking
  through a camera; a \<open>parse_float\<close> and a \<open>float_repr\<close> for the one time stamp of the
  examples.
\<close>

definition example_viewer :: viewer where
  "example_viewer =
     \<lparr>camera_name = Some ''cam1'', viewport_name = ''persp1'', flipbook_raises = False\<rparr>"

definition example_hou :: hou where
  "example_hou =
     \<lparr>node = [''/obj'' \<mapsto> \<lparr>userData = Map.empty, allSubChildren = []\<rparr>],
      HIP = Some ''/proj'',
      hipFile_path = ''/proj/shot.hip'',
      getcwd = ''/home/artist'',
      frame = Finite 240,
      strftime = ''20240101_120000'',
      time_time = 6923000001 / 4,
      scene_viewer = Some example_viewer,
      isdir = (\<lambda>d. False),
      path_exists = (\<lambda>d. False),
      answers = [],
      selectFromList = [0],
      readMultiInput = (0, ''1920'', ''1080''),
      log = []\<rparr>"

definition example_parse_float :: "string \<Rightarrow> pyfloat" where
  "example_parse_float l = (if l = ''1730750000.25'' then Finite (6923000001 / 4) else NaN)"

definition example_float_repr :: "rat \<Rightarrow> string" where
  "example_float_repr q = (if q = 6923000001 / 4 then ''1730750000.25'' else ''0.0'')"

definition with_stored :: "hou \<Rightarrow> string \<Rightarrow> hou" where
  "with_stored h raw =
     h\<lparr>node := (node h)(''/obj'' \<mapsto> \<lparr>userData = [STATE_KEY \<mapsto> raw], allSubChildren = []\<rparr>)\<rparr>"

text \<open>The same session with a Scene Viewer whose flipbook raises.\<close>

definition example_failing :: hou where
  "example_failing = example_hou\<lparr>scene_viewer := Some (example_viewer\<lparr>flipbook_raises := True\<rparr>)\<rparr>"



section \<open>Lemmas\<close>

subsection \<open>Printing and reading integers\<close>

lemma digit_char_val: "d < 10 \<Longrightarrow> digit_val (digit_char d) = d"
  by (simp add: digit_val_def digit_char_def)

lemma is_digit_digit_char: "d < 10 \<Longrightarrow> is_digit (digit_char d)"
  by (simp add: is_digit_def digit_char_def)

lemma nat_of_digits_snoc: "nat_of_digits (ds @ [c]) = 10 * nat_of_digits ds + digit_val c"
  by (simp add: nat_of_digits_def)

lemma nat_of_digits_str_nat: "nat_of_digits (str_nat n) = n"
proof (induction n rule: str_nat.induct)
  case (1 n)
  show ?case
  proof (cases "n < 10")
    case True
    then show ?thesis
      by (simp add: str_nat.simps [of n] nat_of_digits_def digit_char_val)
  next
    case False
    with 1 have "nat_of_digits (str_nat (n div 10)) = n div 10" by simp
    with False show ?thesis
      by (simp add: str_nat.simps [of n] nat_of_digits_snoc digit_char_val)
  qed
qed

lemma str_nat_digits: "list_all is_digit (str_nat n)"
proof (induction n rule: str_nat.induct)
  case (1 n)
  show ?case
  proof (cases "n < 10")
    case True
    then show ?thesis by (simp add: str_nat.simps [of n] is_digit_digit_char)
  next
    case False
    with 1 have "list_all is_digit (str_nat (n div 10))" by simp
    with False show ?thesis by (simp add: str_nat.simps [of n] is_digit_digit_char)
  qed
qed

lemma str_nat_nonempty: "str_nat n \<noteq> []"
  by (subst str_nat.simps) simp

lemma of_char_digit_char: "d < 10 \<Longrightarrow> (of_char (digit_char d) :: nat) = 48 + d"
  by (simp add: digit_char_def)

lemma digit_char_eq_0: "d < 10 \<Longrightarrow> digit_char d = CHR ''0'' \<Longrightarrow> d = 0"
proof -
  assume d: "d < 10" and e: "digit_char d = CHR ''0''"
  have "(of_char (digit_char d) :: nat) = of_char (CHR ''0'')" using e by simp
  with d show ?thesis by (simp add: of_char_digit_char)
qed

lemma str_nat_hd: "0 < n \<Longrightarrow> hd (str_nat n) \<noteq> CHR ''0''"
proof (induction n rule: str_nat.induct)
  case (1 n)
  show ?case
  proof (cases "n < 10")
    case True
    with 1(2) show ?thesis
      using digit_char_eq_0 [of n] by (auto simp add: str_nat.simps [of n])
  next
    case False
    then have "0 < n div 10" by simp
    with 1(1) False have "hd (str_nat (n div 10)) \<noteq> CHR ''0''" by simp
    with False show ?thesis
      by (simp add: str_nat.simps [of n] str_nat_nonempty)
  qed
qed

lemma str_nat_0: "str_nat 0 = ''0''"
proof -
  have "(of_char (digit_char 0) :: nat) = of_char (CHR ''0'')"
    by (simp add: of_char_digit_char)
  then have "digit_char 0 = CHR ''0''" by (simp only: of_char_eq_iff)
  then show ?thesis by (simp add: str_nat.simps [of 0])
qed

subsection \<open>The number pattern on a text that goes on\<close>

lemma scan_digits_append:
  "\<not> is_digit c \<Longrightarrow>
   scan_digits (s @ c # t) = (fst (scan_digits s), snd (scan_digits s) @ c # t)"
  by (induction s) (simp_all add: scan_digits_def)

lemma scan_digits_split: "fst (scan_digits s) @ snd (scan_digits s) = s"
  by (simp add: scan_digits_def)

lemma scan_frac_append:
  "number_stop c \<Longrightarrow> scan_frac (s @ c # t) = (fst (scan_frac s), snd (scan_frac s) @ c # t)"
  by (cases s) (simp_all add: scan_frac_def number_stop_def scan_digits_append)

lemma scan_frac_split: "fst (scan_frac s) @ snd (scan_frac s) = s"
  by (cases s) (simp_all add: scan_frac_def scan_digits_split)

lemma scan_sign_append:
  "number_stop c \<Longrightarrow> scan_sign (s @ c # t) = (fst (scan_sign s), snd (scan_sign s) @ c # t)"
  by (cases s) (simp_all add: scan_sign_def number_stop_def)

lemma scan_sign_split: "fst (scan_sign s) @ snd (scan_sign s) = s"
  by (cases s) (simp_all add: scan_sign_def)

lemma scan_exp_append:
  "number_stop c \<Longrightarrow> scan_exp (s @ c # t) = (fst (scan_exp s), snd (scan_exp s) @ c # t)"
proof (cases s)
  case Nil
  assume "number_stop c"
  with Nil show ?thesis by (simp add: scan_exp_def number_stop_def)
next
  case (Cons a r)
  assume c: "number_stop c"
  then have nd: "\<not> is_digit c" by (simp add: number_stop_def)
  show ?thesis
    by (simp add: Cons scan_exp_def scan_sign_append [OF c] scan_digits_append [OF nd])
qed

lemma scan_exp_split: "fst (scan_exp s) @ snd (scan_exp s) = s"
proof (cases s)
  case Nil
  then show ?thesis by (simp add: scan_exp_def)
next
  case (Cons a r)
  have "fst (scan_sign r) @ fst (scan_digits (snd (scan_sign r))) @ snd (scan_digits (snd (scan_sign r))) = r"
    by (simp add: scan_digits_split scan_sign_split)
  then show ?thesis by (simp add: Cons scan_exp_def)
qed


lemma scan_unsigned_append:
  assumes c: "number_stop c"
  shows "scan_unsigned (s @ c # t) =
           map_option (\<lambda>(i, r). (i, r @ c # t)) (scan_unsigned s)"
proof -
  from c have nd: "\<not> is_digit c" by (simp add: number_stop_def)
  have nz: "c \<noteq> CHR ''0''" using nd by (auto simp add: is_digit_def)
  show ?thesis
    using nd nz by (cases s) (simp_all add: scan_unsigned_def scan_digits_append)
qed

lemma scan_integer_append:
  assumes c: "number_stop c"
  shows "scan_integer (s @ c # t) =
           map_option (\<lambda>(i, r). (i, r @ c # t)) (scan_integer s)"
proof (cases s)
  case Nil
  from c have "c \<noteq> CHR ''-''" by (simp add: number_stop_def)
  with Nil show ?thesis
    using scan_unsigned_append [OF c, of "[]" t]
    by (simp add: scan_integer_def scan_unsigned_def)
next
  case (Cons a r)
  show ?thesis
  proof (cases "a = CHR ''-''")
    case True
    with Cons show ?thesis
      by (cases "scan_unsigned r")
         (auto simp add: scan_integer_def scan_unsigned_append [OF c])
  next
    case False
    with Cons show ?thesis
      using scan_unsigned_append [OF c, of "a # r" t] by (simp add: scan_integer_def)
  qed
qed

lemma scan_unsigned_split: "scan_unsigned s = Some (i, r) \<Longrightarrow> i @ r = s"
  by (cases s) (auto simp add: scan_unsigned_def scan_digits_split split: if_splits)

lemma scan_integer_split: "scan_integer s = Some (i, r) \<Longrightarrow> i @ r = s"
  by (cases s)
     (auto simp add: scan_integer_def split: if_splits dest: scan_unsigned_split)

lemma match_number_append:
  assumes c: "number_stop c"
  shows "match_number (s @ c # t) =
           map_option (\<lambda>(i, f, e, r). (i, f, e, r @ c # t)) (match_number s)"
proof (cases "scan_integer s")
  case None
  then show ?thesis by (simp add: match_number_def scan_integer_append [OF c])
next
  case (Some p)
  obtain i s1 where p: "p = (i, s1)" by (cases p)
  show ?thesis
    by (simp add: match_number_def scan_integer_append [OF c] Some p
        scan_frac_append [OF c] scan_exp_append [OF c] case_prod_beta)
qed

lemma match_number_split: "match_number s = Some (i, f, e, r) \<Longrightarrow> i @ f @ e @ r = s"
proof (cases "scan_integer s")
  case None
  assume "match_number s = Some (i, f, e, r)"
  with None show ?thesis by (simp add: match_number_def)
next
  case (Some p)
  assume h: "match_number s = Some (i, f, e, r)"
  obtain j s1 where p: "p = (j, s1)" by (cases p)
  from h have j: "j = i"
    and f: "f = fst (scan_frac s1)"
    and e: "e = fst (scan_exp (snd (scan_frac s1)))"
    and r: "r = snd (scan_exp (snd (scan_frac s1)))"
    by (simp_all add: match_number_def Some p)
  have "f @ e @ r = s1"
    by (simp add: f e r scan_exp_split scan_frac_split)
  with scan_integer_split [of s i s1] Some p j show ?thesis by simp
qed

lemma scan_unsigned_first:
  "scan_unsigned s = Some x \<Longrightarrow> \<exists>c cs. s = c # cs \<and> is_digit c"
proof -
  have z: "is_digit (CHR ''0'')" by (simp add: is_digit_def)
  assume "scan_unsigned s = Some x"
  with z show ?thesis
    by (cases s) (auto simp add: scan_unsigned_def split: if_splits)
qed

lemma match_number_first:
  "match_number s = Some x \<Longrightarrow> \<exists>c cs. s = c # cs \<and> (c = CHR ''-'' \<or> is_digit c)"
proof -
  assume "match_number s = Some x"
  then obtain y where y: "scan_integer s = Some y"
    by (auto simp add: match_number_def split: option.splits)
  then show ?thesis
    by (cases s) (auto simp add: scan_integer_def split: if_splits dest: scan_unsigned_first)
qed

lemma takeWhile_all: "list_all P xs \<Longrightarrow> takeWhile P xs = xs"
  by (induction xs) simp_all

lemma dropWhile_all: "list_all P xs \<Longrightarrow> dropWhile P xs = []"
  by (induction xs) simp_all

lemma scan_unsigned_str_nat: "scan_unsigned (str_nat n) = Some (str_nat n, [])"
proof (cases "n = 0")
  case True
  then show ?thesis by (simp add: str_nat_0 scan_unsigned_def)
next
  case False
  obtain d ds where s: "str_nat n = d # ds"
    using str_nat_nonempty [of n] by (cases "str_nat n") auto
  from False have "hd (str_nat n) \<noteq> CHR ''0''" by (simp add: str_nat_hd)
  with s have d0: "d \<noteq> CHR ''0''" by simp
  from str_nat_digits [of n] s have dd: "is_digit d" and dds: "list_all is_digit ds"
    by simp_all
  show ?thesis
    using d0 dd dds
    by (simp add: s scan_unsigned_def scan_digits_def takeWhile_all dropWhile_all)
qed

lemma str_nat_no_minus: "take 1 (str_nat n) \<noteq> ''-''"
proof -
  obtain d ds where s: "str_nat n = d # ds"
    using str_nat_nonempty [of n] by (cases "str_nat n") auto
  from str_nat_digits [of n] s have "is_digit d" by simp
  then have "d \<noteq> CHR ''-''" by (auto simp add: is_digit_def)
  with s show ?thesis by simp
qed

lemma scan_integer_str_int: "scan_integer (str_int i) = Some (str_int i, [])"
proof (cases "i < 0")
  case True
  then show ?thesis by (simp add: str_int_def scan_integer_def scan_unsigned_str_nat)
next
  case False
  obtain d ds where s: "str_nat (nat i) = d # ds"
    using str_nat_nonempty [of "nat i"] by (cases "str_nat (nat i)") auto
  with str_nat_no_minus [of "nat i"] have "d \<noteq> CHR ''-''" by simp
  with False s show ?thesis
    using scan_unsigned_str_nat [of "nat i"] by (simp add: str_int_def scan_integer_def)
qed

lemma match_number_str_int: "match_number (str_int i) = Some (str_int i, [], [], [])"
  by (simp add: match_number_def scan_integer_str_int scan_frac_def scan_exp_def)

lemma py_int_literal_str_int: "py_int_literal (str_int i) = i"
proof (cases "i < 0")
  case True
  then show ?thesis by (simp add: py_int_literal_def str_int_def nat_of_digits_str_nat)
next
  case False
  then show ?thesis
    using str_nat_no_minus [of "nat i"]
    by (simp add: py_int_literal_def str_int_def nat_of_digits_str_nat)
qed


subsection \<open>Decoding what the encoder wrote\<close>

declare scan_once.simps [simp del] JSONArray.simps [simp del] JSONObject.simps [simp del]

lemma digit_not_special:
  assumes "c = CHR ''-'' \<or> is_digit c"
  shows "c \<noteq> CHR 0x22" "c \<noteq> CHR ''{''" "c \<noteq> CHR ''[''" "c \<noteq> CHR ''n''"
    "c \<noteq> CHR ''t''" "c \<noteq> CHR ''f''" "\<not> is_ws c" "c \<noteq> CHR '']''" "c \<noteq> CHR ''}''"
  using assms by (auto simp add: is_digit_def is_ws_def)

lemma scan_once_number:
  assumes m: "match_number s = Some (ip, fp, ep, r)"
  shows "scan_once pf (Suc n) s =
           (if fp \<noteq> [] \<or> ep \<noteq> [] then Some (JFloat (pf (ip @ fp @ ep)), r)
            else Some (JInt (py_int_literal ip), r))"
proof -
  from match_number_first [OF m] obtain c cs
    where s: "s = c # cs" and c: "c = CHR ''-'' \<or> is_digit c" by blast
  note ne = digit_not_special [OF c]
  from m have m': "match_number (c # cs) = Some (ip, fp, ep, r)" by (simp add: s)
  show ?thesis
    unfolding s by (simp add: scan_once.simps ne m')
qed

lemma skip_ws_number:
  assumes m: "match_number s = Some x"
  shows "skip_ws (s @ t) = s @ t" and "take 1 (s @ t) \<noteq> '']''" and "take 1 (s @ t) \<noteq> ''}''"
proof -
  from match_number_first [OF m] obtain c cs
    where s: "s = c # cs" and c: "c = CHR ''-'' \<or> is_digit c" by blast
  note ne = digit_not_special [OF c]
  show "skip_ws (s @ t) = s @ t" by (simp add: s skip_ws_def ne)
  show "take 1 (s @ t) \<noteq> '']''" by (simp add: s ne)
  show "take 1 (s @ t) \<noteq> ''}''" by (simp add: s ne)
qed

lemma number_stop_delims:
  "number_stop (CHR '','')" "number_stop (CHR '']'')" "number_stop (CHR ''}'')"
  by (simp_all add: number_stop_def is_digit_def)

lemma skip_ws_delims:
  "skip_ws (CHR '','' # u) = CHR '','' # u" "skip_ws (CHR '']'' # u) = CHR '']'' # u"
  "skip_ws (CHR ''}'' # u) = CHR ''}'' # u" "skip_ws (CHR '':'' # u) = CHR '':'' # u"
  "skip_ws (CHR 0x22 # u) = CHR 0x22 # u" "skip_ws (CHR ''['' # u) = CHR ''['' # u"
  "skip_ws (CHR '' '' # u) = skip_ws u" "skip_ws [] = []"
  by (simp_all add: skip_ws_def is_ws_def)

lemma scan_once_int:
  assumes c: "number_stop c"
  shows "scan_once pf (Suc n) (str_int i @ c # t) = Some (JInt i, c # t)"
proof -
  have "match_number (str_int i @ c # t) = Some (str_int i, [], [], c # t)"
    by (simp add: match_number_append [OF c] match_number_str_int)
  from scan_once_number [OF this] show ?thesis
    by (simp add: py_int_literal_str_int)
qed

lemma JSONArray_ints:
  "xs \<noteq> [] \<Longrightarrow> length xs < k \<Longrightarrow>
   JSONArray pf k (join '', '' (map str_int xs) @ CHR '']'' # t) acc =
     Some (JList (acc @ map JInt xs), t)"
proof (induction xs arbitrary: k acc)
  case Nil
  then show ?case by simp
next
  case (Cons x xs)
  from Cons.prems obtain n where k: "k = Suc (Suc n)" and n: "length xs \<le> n"
    by (cases k; cases "k - 1") auto
  show ?case
  proof (cases xs)
    case Nil
    show ?thesis
      by (simp add: Nil k JSONArray.simps scan_once_int [OF number_stop_delims(2)]
            skip_ws_delims)
  next
    case (Cons y ys)
    have len: "length xs < Suc n" using n by simp
    have ne: "xs \<noteq> []" using Cons by simp
    have sk: "skip_ws (join '', '' (map str_int xs) @ CHR '']'' # t)
                = join '', '' (map str_int xs) @ CHR '']'' # t"
    proof -
      have "join '', '' (map str_int xs) = str_int y @ (if ys = [] then [] else '', '' @ join '', '' (map str_int ys))"
        by (cases ys) (simp_all add: Cons)
      then obtain u where u: "join '', '' (map str_int xs) @ CHR '']'' # t = str_int y @ u"
        by simp
      have "skip_ws (str_int y @ u) = str_int y @ u"
        by (rule skip_ws_number(1) [OF match_number_str_int])
      then show ?thesis by (simp add: u)
    qed
    have step: "JSONArray pf (Suc (Suc n))
                  (str_int x @ CHR '','' # CHR '' '' # join '', '' (map str_int xs) @ CHR '']'' # t) acc
                = JSONArray pf (Suc n) (join '', '' (map str_int xs) @ CHR '']'' # t) (acc @ [JInt x])"
      by (subst JSONArray.simps)
         (simp add: scan_once_int [OF number_stop_delims(1)] skip_ws_delims sk)
    have "join '', '' (map str_int (x # xs)) @ CHR '']'' # t
            = str_int x @ CHR '','' # CHR '' '' # join '', '' (map str_int xs) @ CHR '']'' # t"
      by (simp add: Cons)
    then show ?thesis
      using step Cons.IH [OF ne len, of "acc @ [JInt x]"] by (simp add: k)
  qed
qed



lemma str_int_nonempty: "str_int i \<noteq> []"
  by (simp add: str_int_def str_nat_nonempty)

lemma length_join_ints: "length xs \<le> length (join '', '' (map str_int xs))"
proof (induction xs rule: induct_list012)
  case 1
  then show ?case by simp
next
  case (2 x)
  then show ?case using str_int_nonempty [of x] by (cases "str_int x") simp_all
next
  case (3 x y zs)
  then show ?case using str_int_nonempty [of x] by (cases "str_int x") simp_all
qed

lemma join_ints_start:
  "xs \<noteq> [] \<Longrightarrow> \<exists>i u. join '', '' (map str_int xs) @ t = str_int i @ u"
proof (cases xs)
  case Nil
  assume "xs \<noteq> []"
  with Nil show ?thesis by simp
next
  case (Cons y ys)
  have "join '', '' (map str_int (y # ys)) @ t =
          str_int y @ (if ys = [] then t else '', '' @ join '', '' (map str_int ys) @ t)"
    by (cases ys) simp_all
  with Cons show ?thesis by blast
qed

lemma scan_once_int_list:
  assumes "length xs < m"
  shows "scan_once pf (Suc m) (CHR ''['' # join '', '' (map str_int xs) @ CHR '']'' # t) =
           Some (JList (map JInt xs), t)"
proof (cases "xs = []")
  case True
  then show ?thesis by (simp add: scan_once.simps skip_ws_delims)
next
  case False
  from join_ints_start [OF False] obtain i u
    where u: "join '', '' (map str_int xs) @ CHR '']'' # t = str_int i @ u" by blast
  have sk: "skip_ws (join '', '' (map str_int xs) @ CHR '']'' # t) =
              join '', '' (map str_int xs) @ CHR '']'' # t"
    unfolding u by (rule skip_ws_number(1) [OF match_number_str_int])
  have nb: "take 1 (join '', '' (map str_int xs) @ CHR '']'' # t) \<noteq> '']''"
    unfolding u by (rule skip_ws_number(2) [OF match_number_str_int])
  have nb': "take (Suc 0) (join '', '' (map str_int xs) @ CHR '']'' # t) \<noteq> '']''"
    using nb by (simp del: take_append)
  show ?thesis
    using JSONArray_ints [OF False assms, of pf t "[]"]
    by (simp add: scan_once.simps sk nb' del: take_append drop_append)
qed

lemma scan_once_float:
  assumes fl: "float_literal l"
  shows "scan_once pf (Suc m) (l @ CHR ''}'' # t) = Some (JFloat (pf l), CHR ''}'' # t)"
proof -
  from fl obtain ip fp ep where m: "match_number l = Some (ip, fp, ep, [])"
    and ne: "fp \<noteq> [] \<or> ep \<noteq> []"
    by (auto simp add: float_literal_def split: option.splits)
  from match_number_split [OF m] have l: "ip @ fp @ ep = l" by simp
  have "match_number (l @ CHR ''}'' # t) = Some (ip, fp, ep, CHR ''}'' # t)"
    by (simp add: match_number_append [OF number_stop_delims(3)] m)
  from scan_once_number [OF this] ne l show ?thesis by auto
qed

lemma scanstring_checked:
  "scanstring (CHR ''c'' # CHR ''h'' # CHR ''e'' # CHR ''c'' # CHR ''k'' # CHR ''e'' # CHR ''d''
     # CHR 0x22 # t) = Some (''checked'', t)"
  by (simp add: prepend_def)

lemma scanstring_time:
  "scanstring (CHR ''t'' # CHR ''i'' # CHR ''m'' # CHR ''e'' # CHR 0x22 # t) = Some (''time'', t)"
  by (simp add: prepend_def)

lemma dumps_list_ints: "dumps_list fr (map JInt xs) = map str_int xs"
  by (induction xs) simp_all

lemma encode_keys:
  "encode_basestring_ascii ''checked'' = CHR 0x22 # ''checked'' @ [CHR 0x22]"
  "encode_basestring_ascii ''time'' = CHR 0x22 # ''time'' @ [CHR 0x22]"
  by (simp_all add: encode_basestring_ascii_def encode_char_def)

lemma dumps_state:
  "json_dumps fr (JDict [(''checked'', JList (map JInt xs)), (''time'', JFloat (Finite now))]) =
     state_text (join '', '' (map str_int xs)) (fr now)"
  by (simp add: encode_keys dumps_list_ints floatstr_def state_text_def)

lemma scan_once_state:
  assumes fl: "float_literal l" and len: "length xs < m"
  shows "scan_once pf (Suc (Suc (Suc m))) (state_text (join '', '' (map str_int xs)) l) =
           Some (JDict [(''checked'', JList (map JInt xs)), (''time'', JFloat (pf l))], [])"
proof -
  let ?body = "join '', '' (map str_int xs)"
  let ?t2 = "CHR ''t'' # CHR ''i'' # CHR ''m'' # CHR ''e'' # CHR 0x22 # CHR '':'' # CHR '' '' # l @ ''}''"
  let ?t1 = "CHR '','' # CHR '' '' # CHR 0x22 # ?t2"
  obtain m' where m: "m = Suc m'" using len by (cases m) auto
  from fl obtain x where mx: "match_number l = Some x"
    by (auto simp add: float_literal_def split: option.splits)
  have skl: "skip_ws (l @ ''}'') = l @ ''}''"
    by (rule skip_ws_number(1) [OF mx])
  have second: "JSONObject pf (Suc m) (CHR 0x22 # ?t2) [(''checked'', JList (map JInt xs))] =
      Some (JDict [(''checked'', JList (map JInt xs)), (''time'', JFloat (pf l))], [])"
    by (subst JSONObject.simps)
       (simp add: prepend_def skip_ws_delims m skl scan_once_float [OF fl, of pf m' "[]"])
  have first: "JSONObject pf (Suc (Suc m))
       (CHR 0x22 # CHR ''c'' # CHR ''h'' # CHR ''e'' # CHR ''c'' # CHR ''k'' # CHR ''e'' # CHR ''d''
          # CHR 0x22 # CHR '':'' # CHR '' '' # CHR ''['' # ?body @ CHR '']'' # ?t1) [] =
      Some (JDict [(''checked'', JList (map JInt xs)), (''time'', JFloat (pf l))], [])"
    by (subst JSONObject.simps)
       (simp add: prepend_def skip_ws_delims scan_once_int_list [OF len] second)
  show ?thesis
    by (subst scan_once.simps) (simp add: state_text_def skip_ws_delims first)
qed

lemma length_state_text: "length body + 4 \<le> length (state_text body l)"
  by (simp add: state_text_def)

lemma loads_dumps_state:
  assumes fl: "float_literal (fr now)"
  shows "json_loads pf
           (json_dumps fr (JDict [(''checked'', JList (map JInt xs)), (''time'', JFloat (Finite now))])) =
         Inr (JDict [(''checked'', JList (map JInt xs)), (''time'', JFloat (pf (fr now)))])"
proof -
  let ?text = "state_text (join '', '' (map str_int xs)) (fr now)"
  have sk: "skip_ws ?text = ?text" by (simp add: state_text_def skip_ws_def is_ws_def)
  have "length xs + 4 \<le> length ?text"
    using length_join_ints [of xs] length_state_text [of "join '', '' (map str_int xs)" "fr now"]
    by linarith
  then have k: "2 * length ?text = Suc (Suc (Suc (2 * length ?text - 3)))"
    and m: "length xs < 2 * length ?text - 3"
    by linarith+
  show ?thesis
    unfolding dumps_state json_loads_def sk
    by (subst k) (simp add: scan_once_state [OF fl m] skip_ws_delims)
qed

section \<open>The claims\<close>

subsection \<open>The label list\<close>

text \<open>
  C10. The label list has exactly 18 items: the label on UV and texture stretching and the
  label on cached heavy sims are adjacent literals without a comma, so they are one item
  (the eleventh), whose text is the first label followed directly by the second.
\<close>

theorem check_items_count:
  "length CHECK_ITEMS = 18 \<and>
   CHECK_ITEMS ! 10 =
     ''No UV or texture stretching; verify texture paths are valid and UDIMs resolve correctly.''
       @ ''Heavy sims/meshes cached to disk; downstream reads from caches.'' \<and>
   CHECK_ITEMS ! 9 = ''Shaders finalized or clean procedural placeholders '' @ em_dash
       @ '' no default gray giveaways.'' \<and>
   CHECK_ITEMS ! 11 =
     ''Clear history & caches where safe (reduce file size, speed up load times).''"
  by (simp add: CHECK_ITEMS_def)

subsection \<open>Persistence\<close>

lemma list_count_18: "list_count = 18"
  by (simp add: list_count_def CHECK_ITEMS_def)

lemma py_in_ints: "py_in i (map JInt S) \<longleftrightarrow> i \<in> set S"
  by (induction S) (auto simp add: py_in_def eq_int_def)

lemma py_set_ints: "py_set (JList (map JInt S)) = Inr (map JInt S)"
  by (induction S) (simp_all add: py_set_def hashable_def list_all_iff)

lemma dialog_init_ints:
  assumes "saved_get_checked (load_state pf h) = Inr (JList (map JInt S))"
  shows "dialog_init pf h = Inr (map (\<lambda>i. int i \<in> set S) [0..<list_count])"
  by (simp add: dialog_init_def assms py_set_ints py_in_ints)

lemma collect_checked_indices_set:
  "set (collect_checked_indices items) = int ` {i. i < length items \<and> items ! i}"
  by (auto simp add: collect_checked_indices_def)

lemma collect_restored:
  "set (collect_checked_indices (map (\<lambda>i. int i \<in> set S) [0..<n])) = set S \<inter> {0..<int n}"
proof -
  have "int ` {i. i < n \<and> int i \<in> set S} = set S \<inter> {0..<int n}"
  proof (rule set_eqI)
    fix j :: int
    have "j \<in> set S \<and> 0 \<le> j \<and> j < int n \<Longrightarrow> j \<in> int ` {i. i < n \<and> int i \<in> set S}"
      by (rule image_eqI [where x = "nat j"]) auto
    then show "j \<in> int ` {i. i < n \<and> int i \<in> set S} \<longleftrightarrow> j \<in> set S \<inter> {0..<int n}"
      by auto
  qed
  then show ?thesis by (simp add: collect_checked_indices_set cong: conj_cong)
qed

lemma load_save_state:
  assumes n: "node h ''/obj'' = Some n" and fl: "float_literal (float_repr (time_time h))"
  shows "load_state pf (save_state float_repr h S) =
           JDict [(''checked'', JList (map JInt S)),
                  (''time'', JFloat (pf (float_repr (time_time h))))]"
proof -
  let ?v = "JDict [(''checked'', JList (map JInt S)), (''time'', JFloat (Finite (time_time h)))]"
  have ne: "json_dumps float_repr ?v \<noteq> []"
    by (simp add: dumps_state state_text_def)
  show ?thesis
    using ne fl loads_dumps_state [of float_repr "time_time h" pf S]
    by (simp add: load_state_def save_state_def state_node_def n Let_def)
qed

text \<open>
  C1. With the state node \<open>/obj\<close> in the scene, and the time stamp printed as a float
  literal of JSON, saving a list of indices and loading again gives a state whose
  \<open>checked\<close> entry is that list, so that the set the dialog builds from it has exactly the
  saved indices as members; and for indices in \<open>[0, N)\<close> the dialog that opens on the
  saved state has exactly these boxes checked.
\<close>

theorem persist_reload_round_trip:
  assumes "node h ''/obj'' = Some n" and "float_literal (float_repr (time_time h))"
  shows "saved_get_checked (load_state pf (save_state float_repr h S)) = Inr (JList (map JInt S)) \<and>
         py_set (JList (map JInt S)) = Inr (map JInt S) \<and>
         (\<forall>i. py_in i (map JInt S) \<longleftrightarrow> i \<in> set S) \<and>
         (set S \<subseteq> {0..<int list_count} \<longrightarrow>
            (\<exists>items. dialog_init pf (save_state float_repr h S) = Inr items \<and>
               set (collect_checked_indices items) = set S))"
proof -
  have g: "saved_get_checked (load_state pf (save_state float_repr h S)) = Inr (JList (map JInt S))"
    using assms load_save_state [of h n float_repr pf S]
    by (simp add: saved_get_checked_def)
  have d: "set S \<subseteq> {0..<int list_count} \<Longrightarrow>
      set (collect_checked_indices (map (\<lambda>i. int i \<in> set S) [0..<list_count])) = set S"
    unfolding collect_restored by blast
  show ?thesis
    using g d by (simp add: py_set_ints py_in_ints dialog_init_ints [OF g])
qed

lemma example_float_literal: "float_literal (example_float_repr (time_time example_hou))"
  by code_simp

lemma example_node:
  "node example_hou ''/obj'' = Some \<lparr>userData = Map.empty, allSubChildren = []\<rparr>"
  by (simp add: example_hou_def)

theorem persist_reload_round_trip_witness:
  "saved_get_checked (load_state example_parse_float (save_state example_float_repr example_hou [0, 3, 17]))
     = Inr (JList [JInt 0, JInt 3, JInt 17]) \<and>
   (\<exists>items. dialog_init example_parse_float (save_state example_float_repr example_hou [0, 3, 17])
        = Inr items \<and> set (collect_checked_indices items) = {0, 3, 17})"
  using persist_reload_round_trip [of example_hou "\<lparr>userData = Map.empty, allSubChildren = []\<rparr>"
          example_float_repr example_parse_float "[0, 3, 17]"]
    example_node example_float_literal
  by (simp add: list_count_18)

text \<open>
  C9. \<open>load_state\<close> has no error result: it returns the empty state when the state node is
  missing, when the key is absent, and when the stored text is one that \<open>json.loads\<close>
  rejects with whatever error; and on the empty state the dialog opens with every item
  unchecked.
\<close>

theorem load_state_never_raises:
  "(node h ''/obj'' = None \<longrightarrow> load_state pf h = JDict []) \<and>
   (node h ''/obj'' = Some n \<and> userData n STATE_KEY = None \<longrightarrow> load_state pf h = JDict []) \<and>
   (node h ''/obj'' = Some n \<and> userData n STATE_KEY = Some raw \<and> json_loads pf raw = Inl e
      \<longrightarrow> load_state pf h = JDict []) \<and>
   (load_state pf h = JDict [] \<longrightarrow> dialog_init pf h = Inr (replicate list_count False))"
  by (simp add: load_state_def state_node_def dialog_init_def saved_get_checked_def py_set_def
        py_in_def map_replicate_const)

lemma example_bad_json: "json_loads example_parse_float ''{oops'' = Inl JSONDecodeError"
  by code_simp

theorem load_state_never_raises_witness:
  "load_state example_parse_float (example_hou\<lparr>node := Map.empty\<rparr>) = JDict [] \<and>
   dialog_init example_parse_float (example_hou\<lparr>node := Map.empty\<rparr>) = Inr (replicate list_count False) \<and>
   load_state example_parse_float example_hou = JDict [] \<and>
   dialog_init example_parse_float example_hou = Inr (replicate list_count False) \<and>
   load_state example_parse_float (with_stored example_hou ''{oops'') = JDict [] \<and>
   dialog_init example_parse_float (with_stored example_hou ''{oops'') = Inr (replicate list_count False)"
  using load_state_never_raises [where h = "example_hou\<lparr>node := Map.empty\<rparr>"
      and pf = example_parse_float]
    load_state_never_raises [where h = example_hou
      and n = "\<lparr>userData = Map.empty, allSubChildren = []\<rparr>" and pf = example_parse_float]
    load_state_never_raises [where h = "with_stored example_hou ''{oops''"
      and n = "\<lparr>userData = [STATE_KEY \<mapsto> ''{oops''], allSubChildren = []\<rparr>"
      and raw = "''{oops''" and pf = example_parse_float and e = JSONDecodeError]
    example_bad_json
  by (simp add: example_hou_def with_stored_def)

lemma set_collect_subset:
  "set (collect_checked_indices items) \<subseteq> {0..<int (length items)}"
  by (auto simp add: collect_checked_indices_set)

lemma length_dialog_init: "dialog_init pf h = Inr items \<Longrightarrow> length items = list_count"
  by (auto simp add: dialog_init_def split: sum.splits)

lemma length_setCheckState: "length (snd (setCheckState fr i b (h, items))) = length items"
  by (simp add: setCheckState_def)

lemma length_fold_setCheckState:
  "length (snd (fold (\<lambda>i. setCheckState fr i b) is st)) = length (snd st)"
proof (induction "is" arbitrary: st)
  case Nil
  then show ?case by simp
next
  case (Cons i "is")
  obtain h items where st: "st = (h, items)" by (cases st)
  show ?case by (simp add: Cons.IH st length_setCheckState)
qed

lemma length_check_all: "length (snd (check_all fr h items)) = length items"
  using length_fold_setCheckState [of fr True "[0..<length items]" "(h, items)"]
  by (auto simp add: check_all_def split: prod.splits)

lemma length_clear_all: "length (snd (clear_all fr h items)) = length items"
  using length_fold_setCheckState [of fr False "[0..<length items]" "(h, items)"]
  by (auto simp add: clear_all_def split: prod.splits)

lemma restore_ignores_out_of_range:
  "map (\<lambda>i. int i \<in> set (filter (\<lambda>j. 0 \<le> j \<and> j < int n) S)) [0..<n] =
   map (\<lambda>i. int i \<in> set S) [0..<n]"
  by (rule map_cong) auto

text \<open>
  C8. The indices the dialog restores on open and the indices it persists are indices of
  its rows: a dialog that opened has \<open>N\<close> rows, the handlers keep that number, and the
  checked indices collected from \<open>N\<close> rows lie in \<open>[0, N)\<close>. Stored indices outside the
  range raise nothing and change nothing: the dialog opens in the state it opens in
  without them.
\<close>

theorem checked_indices_within_range:
  "(dialog_init pf h = Inr items \<longrightarrow>
      length items = list_count \<and> set (collect_checked_indices items) \<subseteq> {0..<int list_count}) \<and>
   (length items' = list_count \<longrightarrow>
      set (collect_checked_indices items') \<subseteq> {0..<int list_count} \<and>
      persist_now fr h items' = save_state fr h (collect_checked_indices items') \<and>
      length (snd (setCheckState fr i b (h, items'))) = list_count \<and>
      length (snd (check_all fr h items')) = list_count \<and>
      length (snd (clear_all fr h items')) = list_count) \<and>
   (saved_get_checked (load_state pf h) = Inr (JList (map JInt S)) \<longrightarrow>
      dialog_init pf h = Inr (map (\<lambda>i. int i \<in> set S) [0..<list_count]) \<and>
      dialog_init pf h =
        Inr (map (\<lambda>i. int i \<in> set (filter (\<lambda>j. 0 \<le> j \<and> j < int list_count) S)) [0..<list_count]))"
proof -
  have a: "dialog_init pf h = Inr items \<Longrightarrow>
      length items = list_count \<and> set (collect_checked_indices items) \<subseteq> {0..<int list_count}"
    using set_collect_subset [of items] by (simp add: length_dialog_init)
  have b: "length items' = list_count \<Longrightarrow>
      set (collect_checked_indices items') \<subseteq> {0..<int list_count}"
    using set_collect_subset [of items'] by simp
  show ?thesis
    using a b
    by (simp add: persist_now_def length_setCheckState length_check_all length_clear_all
          dialog_init_ints restore_ignores_out_of_range)
qed

lemma example_stored:
  \<open>load_state example_parse_float (with_stored example_hou ''{"checked": [0, 99, -3, 17]}'') =
     JDict [(''checked'', JList (map JInt [0, 99, -3, 17]))]\<close>
  by code_simp

lemma example_restored:
  "map (\<lambda>i. int i \<in> set [0, 99, -3, 17]) [0..<18] =
     [True, False, False, False, False, False, False, False, False,
      False, False, False, False, False, False, False, False, True]"
  by (simp add: upt_conv_Cons)

theorem checked_indices_within_range_witness:
  \<open>dialog_init example_parse_float (with_stored example_hou ''{"checked": [0, 99, -3, 17]}'') =
     Inr [True, False, False, False, False, False, False, False, False,
          False, False, False, False, False, False, False, False, True] \<and>
   set (collect_checked_indices
          [True, False, False, False, False, False, False, False, False,
           False, False, False, False, False, False, False, False, True]) \<subseteq> {0..<int list_count} \<and>
   length (snd (check_all example_float_repr example_hou (replicate 18 False))) = list_count \<and>
   length (snd (clear_all example_float_repr example_hou (replicate 18 False))) = list_count\<close>
proof -
  let ?h = \<open>with_stored example_hou ''{"checked": [0, 99, -3, 17]}''\<close>
  let ?items = "[True, False, False, False, False, False, False, False, False,
          False, False, False, False, False, False, False, False, True]"
  have g: "saved_get_checked (load_state example_parse_float ?h) = Inr (JList (map JInt [0, 99, -3, 17]))"
    by (simp add: example_stored saved_get_checked_def)
  have d: "dialog_init example_parse_float ?h = Inr ?items"
    using checked_indices_within_range [where h = ?h and pf = example_parse_float
        and S = "[0, 99, -3, 17]"] g example_restored
    by (simp add: list_count_18)
  have l: "length ?items = list_count" "length (replicate 18 False) = list_count"
    by (simp_all add: list_count_18)
  show ?thesis
    using d checked_indices_within_range [where h = ?h and pf = example_parse_float
        and items = ?items and S = "[0, 99, -3, 17]"]
      checked_indices_within_range [where h = example_hou and fr = example_float_repr
        and items' = "replicate 18 False"] l(2)
    by simp
qed

subsection \<open>What the handlers add to the log\<close>






















subsection \<open>A flipbook that raises\<close>

lemma notifications_silent: "list_all silent es \<Longrightarrow> notifications es = []"
proof (induction es)
  case Nil
  then show ?case by simp
next
  case (Cons e es)
  then show ?case by (cases e) (simp_all add: silent_def)
qed

lemma notifications_append: "notifications (es @ fs) = notifications es @ notifications fs"
  by (induction es rule: notifications.induct) simp_all

lemma new_events_append: "log h' = log h @ es \<Longrightarrow> new_events h h' = es"
  by (simp add: new_events_def)

lemma screens_dir_events: "\<exists>es. log (snd (screens_dir h)) = log h @ es \<and> list_all is_MakeDirs es"
  by (simp add: screens_dir_def Let_def is_MakeDirs_def)

lemma screenshot_viewport_raises:
  assumes "scene_viewer h = Some sv" and "flipbook_raises sv"
  shows "screenshot_viewport h sfx = (None, snd (screens_dir h))"
  using assms by (simp add: screenshot_viewport_def Let_def)

lemma silent_MakeDirs: "list_all is_MakeDirs es \<Longrightarrow> list_all silent es"
  by (induction es) (auto simp add: is_MakeDirs_def silent_def split: event.splits)

lemma save_state_events:
  "\<exists>es. log (save_state fr h S) = log h @ es \<and> list_all silent es"
  by (cases "node h ''/obj''")
     (simp_all add: save_state_def state_node_def Let_def silent_def)

lemma save_state_fields:
  "hipFile_path (save_state fr h S) = hipFile_path h"
  "scene_viewer (save_state fr h S) = scene_viewer h"
  by (cases "node h ''/obj''"; simp add: save_state_def state_node_def Let_def)+

lemma save_as_final_saved:
  assumes "hipFile_path h \<noteq> []" and "hipFile_path h \<noteq> ''untitled.hip''"
  shows "\<exists>final_path h2 es. save_as_final h = (Some final_path, h2) \<and>
           log h2 = log h @ es \<and> list_all silent es \<and> scene_viewer h2 = scene_viewer h \<and>
           (\<not> endswith (lower (hipFile_path h)) ''_final.hip'' \<longrightarrow> SaveHip final_path \<in> set es)"
  using assms by (simp add: save_as_final_def Let_def silent_def)

text \<open>
  C7, as amended. When the flipbook raises, \<open>screenshot_viewport\<close> returns \<open>None\<close> and has
  done nothing but create the directory. The Screenshot button then shows the failure as
  an inline status message. Finalize on a saved scene has saved the scene under its final
  name before the capture is tried, and afterwards shows the status message
  \<open>Saved as: ...\<close> with the path and nothing on the screenshot, and accepts the dialog.
\<close>

theorem flipbook_exception_swallowed:
  assumes "scene_viewer h = Some sv" and "flipbook_raises sv"
  shows "fst (screenshot_viewport h sfx) = None \<and>
         list_all is_MakeDirs (new_events h (snd (screenshot_viewport h sfx))) \<and>
         on_screenshot h = notify (snd (screenshot_viewport h ''checkpoint'')) screenshot_failed \<and>
         (hipFile_path h \<noteq> [] \<and> hipFile_path h \<noteq> ''untitled.hip'' \<longrightarrow>
            (\<exists>final_path es.
               fst (save_as_final (persist_now fr h items)) = Some final_path \<and>
               new_events h (finalize_save fr h items)
                 = es @ [Notify (''Saved as: '' @ final_path), Accept] \<and>
               list_all silent es \<and>
               (\<not> endswith (lower (hipFile_path h)) ''_final.hip'' \<longrightarrow>
                  SaveHip final_path \<in> set es)))"
proof -
  note r = screenshot_viewport_raises [OF assms]
  from screens_dir_events [of h] obtain ds
    where ds: "log (snd (screens_dir h)) = log h @ ds" "list_all is_MakeDirs ds" by blast
  have one: "fst (screenshot_viewport h sfx) = None" by (simp add: r)
  have two: "list_all is_MakeDirs (new_events h (snd (screenshot_viewport h sfx)))"
    by (simp add: r new_events_append [OF ds(1)] ds(2))
  have three: "on_screenshot h = notify (snd (screenshot_viewport h ''checkpoint'')) screenshot_failed"
    by (simp add: on_screenshot_def r)
  have four: "\<exists>final_path es.
               fst (save_as_final (persist_now fr h items)) = Some final_path \<and>
               new_events h (finalize_save fr h items)
                 = es @ [Notify (''Saved as: '' @ final_path), Accept] \<and>
               list_all silent es \<and>
               (\<not> endswith (lower (hipFile_path h)) ''_final.hip'' \<longrightarrow>
                  SaveHip final_path \<in> set es)"
    if saved: "hipFile_path h \<noteq> []" "hipFile_path h \<noteq> ''untitled.hip''"
  proof -
    let ?h1 = "persist_now fr h items"
    from save_state_events [of fr h "collect_checked_indices items"] obtain ps
      where ps: "log ?h1 = log h @ ps" "list_all silent ps"
      unfolding persist_now_def by blast
    have f1: "hipFile_path ?h1 = hipFile_path h" "scene_viewer ?h1 = scene_viewer h"
      by (simp_all add: persist_now_def save_state_fields)
    from save_as_final_saved [of ?h1] saved f1 obtain final_path h2 ss
      where s: "save_as_final ?h1 = (Some final_path, h2)"
        and ss: "log h2 = log ?h1 @ ss" "list_all silent ss"
        and v2: "scene_viewer h2 = scene_viewer h"
        and sv: "\<not> endswith (lower (hipFile_path h)) ''_final.hip'' \<longrightarrow> SaveHip final_path \<in> set ss"
      by auto
    have r2: "screenshot_viewport h2 ''final'' = (None, snd (screens_dir h2))"
      by (rule screenshot_viewport_raises [of h2 sv]) (simp_all add: v2 assms)
    from screens_dir_events [of h2] obtain ms
      where ms: "log (snd (screens_dir h2)) = log h2 @ ms" "list_all is_MakeDirs ms" by blast
    have "log (finalize_save fr h items)
            = log h @ (ps @ ss @ ms) @ [Notify (''Saved as: '' @ final_path), Accept]"
      by (simp add: finalize_save_def s r2 notify_def ms(1) ss(1) ps(1))
    then have n: "new_events h (finalize_save fr h items)
            = (ps @ ss @ ms) @ [Notify (''Saved as: '' @ final_path), Accept]"
      by (rule new_events_append)
    have q: "list_all silent (ps @ ss @ ms)"
      using ps(2) ss(2) silent_MakeDirs [OF ms(2)] by simp
    from sv have m: "\<not> endswith (lower (hipFile_path h)) ''_final.hip''
        \<longrightarrow> SaveHip final_path \<in> set (ps @ ss @ ms)"
      by simp
    from s n q m show ?thesis by (intro exI [of _ final_path] exI [of _ "ps @ ss @ ms"]) simp
  qed
  from one two three four show ?thesis by blast
qed

lemma example_failing_viewer:
  "scene_viewer example_failing = Some (example_viewer\<lparr>flipbook_raises := True\<rparr>)"
  "flipbook_raises (example_viewer\<lparr>flipbook_raises := True\<rparr>)"
  "hipFile_path example_failing = ''/proj/shot.hip''"
  by (simp_all add: example_failing_def example_hou_def)

lemma example_not_final: "\<not> endswith (lower ''/proj/shot.hip'') ''_final.hip''"
  by code_simp

theorem flipbook_exception_swallowed_witness:
  "fst (screenshot_viewport example_failing ''checkpoint'') = None \<and>
   on_screenshot example_failing
     = notify (snd (screenshot_viewport example_failing ''checkpoint'')) screenshot_failed \<and>
   (\<exists>final_path es.
      fst (save_as_final (persist_now example_float_repr example_failing (replicate 18 True)))
        = Some final_path \<and>
      new_events example_failing (finalize_save example_float_repr example_failing (replicate 18 True))
        = es @ [Notify (''Saved as: '' @ final_path), Accept] \<and>
      list_all silent es \<and> SaveHip final_path \<in> set es)"
proof -
  note T = flipbook_exception_swallowed [where h = example_failing
      and sv = "example_viewer\<lparr>flipbook_raises := True\<rparr>" and sfx = "''checkpoint''"
      and fr = example_float_repr and items = "replicate 18 True",
      OF example_failing_viewer(1) example_failing_viewer(2)]
  have s: "hipFile_path example_failing \<noteq> [] \<and> hipFile_path example_failing \<noteq> ''untitled.hip''"
    by (simp add: example_failing_viewer)
  have nf: "\<not> endswith (lower (hipFile_path example_failing)) ''_final.hip''"
    by (simp only: example_failing_viewer(3) example_not_final not_False_eq_True)
  from T s nf show ?thesis by blast
qed

text \<open>
  The claim as stated fails for finalize: with a flipbook that raises, the one status
  message of \<open>on_finalize\<close> is the saved path, and the failure message of the Screenshot
  button is not shown.
\<close>

theorem finalize_does_not_report_counterexample:
  "fst (screenshot_viewport example_failing ''final'') = None \<and>
   notifications (log (on_finalize example_float_repr example_failing (replicate 18 True)))
     = [''Saved as: /proj/shot_final.hip''] \<and>
   screenshot_failed \<notin> set (notifications
     (log (on_finalize example_float_repr example_failing (replicate 18 True))))"
  by code_simp

subsection \<open>The scan for absolute paths\<close>









subsection \<open>Save as final\<close>

lemma save_as_final_hip:
  "hipFile_path h \<noteq> [] \<Longrightarrow> hipFile_path h \<noteq> ''untitled.hip'' \<Longrightarrow>
   endswith (lower (hipFile_path h)) ''_final.hip'' \<Longrightarrow>
   save_as_final h = (Some (hipFile_path h), h)"
  by (simp add: save_as_final_def)

lemma save_as_final_other:
  "hipFile_path h \<noteq> [] \<Longrightarrow> hipFile_path h \<noteq> ''untitled.hip'' \<Longrightarrow>
   \<not> endswith (lower (hipFile_path h)) ''_final.hip'' \<Longrightarrow>
   fst (save_as_final h)
     = Some (fst (splitext (hipFile_path h)) @ ''_final'' @ snd (splitext (hipFile_path h)))"
  by (simp add: save_as_final_def Let_def)

text \<open>
  C3 fails on the code. The test for a name that is final already is
  \<open>cur.lower().endswith("_final.hip")\<close>, so it sees the suffix before the extension
  \<open>.hip\<close> only: a scene of the non-commercial edition, \<open>shot_final.hipnc\<close>, is saved
  again as \<open>shot_final_final.hipnc\<close>, while \<open>shot_final.hip\<close> is left as it is.
\<close>

theorem save_as_final_renames_hipnc_twice:
  "save_as_final (example_hou\<lparr>hipFile_path := ''/proj/shot_final.hip''\<rparr>)
     = (Some ''/proj/shot_final.hip'', example_hou\<lparr>hipFile_path := ''/proj/shot_final.hip''\<rparr>) \<and>
   fst (save_as_final (example_hou\<lparr>hipFile_path := ''/proj/shot_final.hipnc''\<rparr>))
     = Some ''/proj/shot_final_final.hipnc'' \<and>
   log (snd (save_as_final (example_hou\<lparr>hipFile_path := ''/proj/shot_final.hipnc''\<rparr>)))
     = [SaveHip ''/proj/shot_final_final.hipnc''] \<and>
   fst (save_as_final (example_hou\<lparr>hipFile_path := ''/proj/shot.hipnc''\<rparr>))
     = Some ''/proj/shot_final.hipnc''"
proof -
  have a: "endswith (lower ''/proj/shot_final.hip'') ''_final.hip''" by code_simp
  have b: "\<not> endswith (lower ''/proj/shot_final.hipnc'') ''_final.hip''" by code_simp
  have c: "splitext ''/proj/shot_final.hipnc'' = (''/proj/shot_final'', ''.hipnc'')" by code_simp
  have d: "\<not> endswith (lower ''/proj/shot.hipnc'') ''_final.hip''" by code_simp
  have e: "splitext ''/proj/shot.hipnc'' = (''/proj/shot'', ''.hipnc'')" by code_simp
  have l: "log example_hou = []" by (simp add: example_hou_def)
  show ?thesis
    by (simp add: save_as_final_def Let_def a b c d e l)
qed

subsection \<open>Screenshot file names\<close>








lemma screens_dir_new_events: "flipbook_outputs (new_events h (snd (screens_dir h))) = []"
  by (simp add: screens_dir_def Let_def new_events_def)


lemma flipbook_resolutions_append:
  "flipbook_resolutions (es @ fs) = flipbook_resolutions es @ flipbook_resolutions fs"
  by (induction es rule: flipbook_resolutions.induct) simp_all









subsection \<open>Custom resolution\<close>







end
